theory Spec2Isabelle
  imports Main "HOL-Library.Word" "HOL-Library.Signed_Division"
begin

unbundle bit_operations_syntax

section \<open>Data model\<close>

text \<open>
  A shallow embedding of the Game of Life sources: the \<open>Grid\<close> class (grid.cpp),
  the \<open>World\<close> class (world.cpp) and the binary codec of the \<open>Zoo\<close> namespace
  (zoo.cpp).

  \<^item> \<open>unsigned int\<close> is \<open>32 word\<close>; arithmetic wraps, comparisons are unsigned.
  \<^item> \<open>int\<close> variables that are filled from unsigned values (in
    \<open>World::count_neighbours\<close> and \<open>Zoo::load_binary\<close>) are \<open>32 word\<close> as well,
    the conversion keeping the bit pattern; their comparisons are the signed ones
    (\<open>sint\<close>).
  \<^item> An exception is a value \<open>Inl e\<close> of the result type \<open>error + 'a\<close>.
  \<^item> A \<open>for\<close> loop over a counter is \<open>for_each\<close> over the list of the values the
    counter takes; the loop body gets the counter and the state that the loop changes.
\<close>

datatype Cell = DEAD | ALIVE

text \<open>
  The exceptions of the sources, named by what they report:
  \<^item> \<open>OutOfBounds\<close>: the "Invalid coordinates" exceptions of \<open>Grid::get\<close>,
    \<open>Grid::set\<close> and both \<open>Grid::operator()\<close>;
  \<^item> \<open>InvalidArgument\<close>: the \<open>std::invalid_argument\<close> of \<open>Grid::crop\<close> and
    \<open>Grid::merge\<close>;
  \<^item> \<open>TruncatedInput\<close>: "Unexpected end of file" of \<open>Zoo::load_binary\<close>;
  \<^item> \<open>FormatError\<close>: the error that the specification names for an impossible
    header; no statement of the sources raises it;
  \<^item> \<open>VectorRange\<close>: an access to \<open>gridVector\<close> beyond its size, which is
    undefined behaviour in the source and cannot happen on a grid that satisfies
    \<open>grid_inv\<close>.
\<close>

datatype error = OutOfBounds | InvalidArgument | TruncatedInput | FormatError | VectorRange

type_synonym u32 = "32 word"
type_synonym byte = "8 word"

record Grid =
  width :: u32
  height :: u32
  gridVector :: "Cell list"

record World =
  currGrid :: Grid
  nextGrid :: Grid

section \<open>Control flow\<close>

definition ebind :: "error + 'a \<Rightarrow> ('a \<Rightarrow> error + 'b) \<Rightarrow> error + 'b" where
  "ebind m f = (case m of Inl e \<Rightarrow> Inl e | Inr a \<Rightarrow> f a)"

fun for_each :: "'i list \<Rightarrow> ('i \<Rightarrow> 's \<Rightarrow> error + 's) \<Rightarrow> 's \<Rightarrow> error + 's" where
  "for_each [] body s = Inr s"
| "for_each (i # is) body s =
     (case body i s of Inl e \<Rightarrow> Inl e | Inr s' \<Rightarrow> for_each is body s')"

text \<open>The values of \<open>v\<close> in \<open>for (unsigned int v = a; v < b; v++)\<close>.\<close>

definition urange :: "u32 \<Rightarrow> u32 \<Rightarrow> u32 list" where
  "urange a b = map word_of_nat [unat a..<unat b]"

text \<open>The values of \<open>v\<close> in \<open>for (int v = a; v < b; v++)\<close> and in
  \<open>for (int v = a; v <= b; v++)\<close>.\<close>

definition srange_lt :: "u32 \<Rightarrow> u32 \<Rightarrow> u32 list" where
  "srange_lt a b = map word_of_int [sint a..sint b - 1]"

definition srange_le :: "u32 \<Rightarrow> u32 \<Rightarrow> u32 list" where
  "srange_le a b = map word_of_int [sint a..sint b]"

section \<open>Grid\<close>

text \<open>\<open>Grid::Grid(width, height)\<close>: the vector has \<open>width * height\<close> cells, the
  product taken in \<open>unsigned int\<close>. The allocation of the vector is taken to
  succeed.\<close>

definition Grid_new :: "u32 \<Rightarrow> u32 \<Rightarrow> Grid" where
  "Grid_new w h = \<lparr>width = w, height = h, gridVector = replicate (unat (w * h)) DEAD\<rparr>"

definition get_index_new_grid :: "u32 \<Rightarrow> u32 \<Rightarrow> u32 \<Rightarrow> u32" where
  "get_index_new_grid x y newWidth = newWidth * y + x"

definition get_index :: "Grid \<Rightarrow> u32 \<Rightarrow> u32 \<Rightarrow> u32" where
  "get_index g x y = get_index_new_grid x y (width g)"

definition are_valid_coordinates :: "Grid \<Rightarrow> u32 \<Rightarrow> u32 \<Rightarrow> bool" where
  "are_valid_coordinates g x y = (0 \<le> x \<and> x < width g \<and> 0 \<le> y \<and> y < height g)"

text \<open>\<open>gridVector[i]\<close>, read and written.\<close>

definition vec_read :: "Cell list \<Rightarrow> u32 \<Rightarrow> error + Cell" where
  "vec_read v i = (if unat i < length v then Inr (v ! unat i) else Inl VectorRange)"

definition vec_write :: "Cell list \<Rightarrow> u32 \<Rightarrow> Cell \<Rightarrow> error + Cell list" where
  "vec_write v i c = (if unat i < length v then Inr (v[unat i := c]) else Inl VectorRange)"

text \<open>\<open>Cell Grid::operator()(x, y) const\<close>.\<close>

definition op_const :: "Grid \<Rightarrow> u32 \<Rightarrow> u32 \<Rightarrow> error + Cell" where
  "op_const g x y =
     (if \<not> are_valid_coordinates g x y then Inl OutOfBounds
      else vec_read (gridVector g) (get_index g x y))"

text \<open>\<open>Cell& Grid::operator()(x, y)\<close>: the reference is read (\<open>op_ref_read\<close>) or
  assigned to (\<open>op_ref_write\<close>).\<close>

definition op_ref_read :: "Grid \<Rightarrow> u32 \<Rightarrow> u32 \<Rightarrow> error + Cell" where
  "op_ref_read g x y =
     (if \<not> are_valid_coordinates g x y then Inl OutOfBounds
      else vec_read (gridVector g) (get_index g x y))"

definition op_ref_write :: "Grid \<Rightarrow> u32 \<Rightarrow> u32 \<Rightarrow> Cell \<Rightarrow> error + Grid" where
  "op_ref_write g x y c =
     (if \<not> are_valid_coordinates g x y then Inl OutOfBounds
      else ebind (vec_write (gridVector g) (get_index g x y) c)
             (\<lambda>v. Inr (g\<lparr>gridVector := v\<rparr>)))"

definition get :: "Grid \<Rightarrow> u32 \<Rightarrow> u32 \<Rightarrow> error + Cell" where
  "get g x y =
     (if \<not> are_valid_coordinates g x y then Inl OutOfBounds else op_const g x y)"

definition set_cell :: "Grid \<Rightarrow> u32 \<Rightarrow> u32 \<Rightarrow> Cell \<Rightarrow> error + Grid" where
  "set_cell g x y cell =
     (if \<not> are_valid_coordinates g x y then Inl OutOfBounds else op_ref_write g x y cell)"

text \<open>\<open>Grid::merge(other, x0, y0, alive_only)\<close>. The state of the loops is the
  destination grid \<open>this\<close>.\<close>

definition merge :: "Grid \<Rightarrow> Grid \<Rightarrow> u32 \<Rightarrow> u32 \<Rightarrow> bool \<Rightarrow> error + Grid" where
  "merge this other x0 y0 alive_only =
     (if width other + x0 > width this \<or> height other + y0 > height this
         \<or> \<not> are_valid_coordinates this x0 y0
      then Inl InvalidArgument
      else
        for_each (urange y0 (min (width this) (y0 + width other))) (\<lambda>y.
          for_each (urange x0 (min (height this) (x0 + height other))) (\<lambda>x this.
            ebind (op_const other (x - x0) (y - y0)) (\<lambda>c.
              if c = ALIVE \<and> alive_only then set_cell this x y ALIVE
              else if alive_only then
                ebind (get this x y) (\<lambda>d.
                  if d = ALIVE then set_cell this (x - x0) (y - y0) ALIVE
                  else ebind (op_const other (x - x0) (y - y0)) (\<lambda>c'. set_cell this x y c'))
              else ebind (op_const other (x - x0) (y - y0)) (\<lambda>c'. set_cell this x y c'))))
          this)"

text \<open>\<open>Grid::crop(x0, y0, x1, y1)\<close>. The state of the loops is \<open>newGrid\<close>.\<close>

definition crop :: "Grid \<Rightarrow> u32 \<Rightarrow> u32 \<Rightarrow> u32 \<Rightarrow> u32 \<Rightarrow> error + Grid" where
  "crop this x0 y0 x1 y1 =
     (if x0 \<ge> width this \<or> x0 < 0 \<or> x1 > width this \<or> x1 < 0
         \<or> y0 \<ge> height this \<or> y0 < 0 \<or> y1 > height this \<or> y1 < 0
      then Inl InvalidArgument
      else if x0 > x1 \<or> y0 > y1 then Inl InvalidArgument
      else
        let newWidth = x1 - x0; newHeight = y1 - y0 in
        for_each (urange y0 y1) (\<lambda>y.
          for_each (urange x0 x1) (\<lambda>x newGrid.
            ebind (get this x y) (\<lambda>c. op_ref_write newGrid (x - x0) (y - y0) c)))
          (Grid_new newWidth newHeight))"


section \<open>World\<close>

definition World_new :: "u32 \<Rightarrow> u32 \<Rightarrow> World" where
  "World_new w h = \<lparr>currGrid = Grid_new w h, nextGrid = Grid_new w h\<rparr>"

text \<open>\<open>World::World(initial_state)\<close>: both grids receive the cells of the initial
  state.\<close>

definition World_from_grid :: "Grid \<Rightarrow> error + World" where
  "World_from_grid initial_state =
     for_each (urange 0 (height initial_state)) (\<lambda>y.
       for_each (urange 0 (width initial_state)) (\<lambda>x wd.
         ebind (op_const initial_state x y) (\<lambda>c.
         ebind (op_ref_write (currGrid wd) x y c) (\<lambda>cg.
         ebind (op_const initial_state x y) (\<lambda>c'.
         ebind (op_ref_write (nextGrid wd) x y c') (\<lambda>ng.
           Inr \<lparr>currGrid = cg, nextGrid = ng\<rparr>))))))
       (World_new (width initial_state) (height initial_state))"

definition get_width :: "World \<Rightarrow> u32" where
  "get_width wd = width (currGrid wd)"

definition get_height :: "World \<Rightarrow> u32" where
  "get_height wd = height (currGrid wd)"

definition get_state :: "World \<Rightarrow> Grid" where
  "get_state wd = currGrid wd"

text \<open>One axis of \<open>World::count_neighbours\<close>: the adjustment of \<open>x_minus\<close> and
  \<open>x_plus\<close> (or \<open>y_minus\<close> and \<open>y_plus\<close>) at the edges, an \<open>if\<close> followed by an
  \<open>else if\<close>, for the toroidal and for the bounded case. \<open>extent\<close> is the width or
  the height.\<close>

definition wrap_axis :: "u32 \<Rightarrow> u32 \<Rightarrow> u32 \<Rightarrow> u32 \<times> u32" where
  "wrap_axis v_minus v_plus extent =
     (if v_minus = - 1 then (extent - 1, v_plus)
      else if v_plus = extent then (v_minus, 0)
      else (v_minus, v_plus))"

definition clip_axis :: "u32 \<Rightarrow> u32 \<Rightarrow> u32 \<Rightarrow> u32 \<times> u32" where
  "clip_axis v_minus v_plus extent =
     (if v_minus = - 1 then (v_minus + 1, v_plus)
      else if v_plus = extent then (v_minus, v_plus - 1)
      else (v_minus, v_plus))"

text \<open>\<open>World::count_neighbours(x, y, torodial)\<close>. The state of the loops is
  \<open>counter\<close>; the method is const, so the cells are read with the const
  \<open>operator()\<close>.\<close>

definition count_neighbours :: "World \<Rightarrow> u32 \<Rightarrow> u32 \<Rightarrow> bool \<Rightarrow> error + u32" where
  "count_neighbours wd x y torodial =
     (let x_minus = x - 1; x_plus = x + 1; y_minus = y - 1; y_plus = y + 1 in
      ebind
        (if torodial then
           let (x_minus, x_plus) = wrap_axis x_minus x_plus (get_width wd);
               (y_minus, y_plus) = wrap_axis y_minus y_plus (get_height wd);
               setX = [x_minus, x, x_plus];
               setY = [y_minus, y, y_plus]
           in for_each [0, 1, 2 :: nat] (\<lambda>i.
                for_each [0, 1, 2 :: nat] (\<lambda>j counter.
                  ebind (op_const (currGrid wd) (setX ! j) (setY ! i)) (\<lambda>c.
                    Inr (if c = ALIVE then counter + 1 else counter))))
                0
         else
           let (x_minus, x_plus) = clip_axis x_minus x_plus (get_width wd);
               (y_minus, y_plus) = clip_axis y_minus y_plus (get_height wd)
           in for_each (srange_le y_minus y_plus) (\<lambda>j.
                for_each (srange_le x_minus x_plus) (\<lambda>i counter.
                  ebind (op_const (currGrid wd) i j) (\<lambda>c.
                    Inr (if c = ALIVE then counter + 1 else counter))))
                0)
        (\<lambda>counter.
           ebind (op_const (currGrid wd) x y) (\<lambda>c.
             Inr (if c = ALIVE then counter - 1 else counter))))"

text \<open>\<open>World::step(torodial)\<close>. Both loops run up to \<open>get_height()\<close>, as in the
  source. The loops change \<open>nextGrid\<close> only, which is their state; the swap
  follows.\<close>

definition step :: "World \<Rightarrow> bool \<Rightarrow> error + World" where
  "step wd torodial =
     ebind
       (for_each (urange 0 (get_height wd)) (\<lambda>y.
          for_each (urange 0 (get_height wd)) (\<lambda>x nextG.
            ebind (count_neighbours wd x y torodial) (\<lambda>neighbours.
            ebind (op_ref_read (currGrid wd) x y) (\<lambda>c.
              if c = ALIVE then
                (if sint neighbours < 2 \<or> sint neighbours > 3
                 then op_ref_write nextG x y DEAD
                 else if neighbours = 2 \<or> neighbours = 3
                 then op_ref_write nextG x y ALIVE
                 else Inr nextG)
              else if neighbours = 3 then op_ref_write nextG x y ALIVE
              else op_ref_write nextG x y DEAD))))
          (nextGrid wd))
       (\<lambda>nextG. Inr \<lparr>currGrid = nextG, nextGrid = currGrid wd\<rparr>)"

section \<open>Binary codec\<close>

text \<open>The four bytes of an \<open>int\<close> or \<open>unsigned int\<close> in memory, and back
  (little-endian host).\<close>

definition u32_bytes :: "u32 \<Rightarrow> byte list" where
  "u32_bytes v = [ucast v, ucast (drop_bit 8 v), ucast (drop_bit 16 v), ucast (drop_bit 24 v)]"

definition bytes_u32 :: "byte list \<Rightarrow> u32" where
  "bytes_u32 bs = foldr (\<lambda>b acc. ucast b + 256 * acc) bs 0"

text \<open>\<open>Zoo::save_binary(path, grid)\<close>, returning the bytes written to the file. The
  state of the outer loop is \<open>(x, y, outOfBounds, bufferInt, file)\<close>. The inner loop
  stops once \<open>outOfBounds\<close> is set: the remaining values of \<open>j\<close> do nothing.
  \<open>bufferInt += pow(2, j)\<close> adds a power of two that is not yet in \<open>bufferInt\<close>, so
  the sum is below \<open>2 ^ 32\<close>, exact in \<open>double\<close>, and equal to the unsigned sum.\<close>

definition save_binary :: "Grid \<Rightarrow> error + byte list" where
  "save_binary grid =
     (let w = width grid; h = height grid;
          file = u32_bytes w @ u32_bytes h;
          loops = (width grid * height grid) div 32;
          loops = (if (height grid * width grid) mod 32 \<noteq> 0 then loops + 1 else loops);
          outOfBounds = (width grid = 0)
      in ebind
           (for_each (srange_lt 0 loops) (\<lambda>i (x, y, outOfBounds, bufferInt, file).
              ebind
                (for_each (srange_lt 0 32) (\<lambda>j (x, y, outOfBounds, bufferInt).
                   if outOfBounds then Inr (x, y, outOfBounds, bufferInt)
                   else
                     ebind (op_ref_read grid x y) (\<lambda>c.
                       let bufferInt =
                             (if c = ALIVE \<and> \<not> outOfBounds then bufferInt + 2 ^ unat j
                              else bufferInt)
                       in if x = width grid - 1 then
                            (if y = height grid - 1 then Inr (x, y, True, bufferInt)
                             else Inr (0, y + 1, outOfBounds, bufferInt))
                          else Inr (x + 1, y, outOfBounds, bufferInt)))
                   (x, y, outOfBounds, bufferInt))
                (\<lambda>(x, y, outOfBounds, bufferInt).
                   Inr (x, y, outOfBounds, 0, file @ u32_bytes bufferInt)))
              (0, 0, outOfBounds, 0, file))
           (\<lambda>(x, y, outOfBounds, bufferInt, file). Inr file))"

text \<open>The input stream of \<open>Zoo::load_binary\<close>: the bytes not yet read, and the
  end-of-file state, which a read sets when the file has fewer bytes than it asks
  for.\<close>

record ifstream =
  rest :: "byte list"
  eofbit :: bool

text \<open>\<open>ifs.read(reinterpret_cast<char*>(&var), 4)\<close>: returns the new value of
  \<open>var\<close>. A read on a stream that has failed extracts nothing; a short read stores
  the bytes that are left in the first bytes of \<open>var\<close> and keeps the others.\<close>

definition ifs_read :: "ifstream \<Rightarrow> u32 \<Rightarrow> u32 \<times> ifstream" where
  "ifs_read ifs var =
     (if eofbit ifs then (var, ifs)
      else if 4 \<le> length (rest ifs)
      then (bytes_u32 (take 4 (rest ifs)), ifs\<lparr>rest := drop 4 (rest ifs)\<rparr>)
      else (bytes_u32 (rest ifs @ drop (length (rest ifs)) (u32_bytes var)),
            ifs\<lparr>rest := [], eofbit := True\<rparr>))"

text \<open>The constants \<open>sizeOfInt\<close> and \<open>bitsInt\<close> of \<open>Zoo::load_binary\<close>.\<close>

definition sizeOfInt :: u32 where
  "sizeOfInt = 4"

definition bitsInt :: u32 where
  "bitsInt = 8 * sizeOfInt"

text \<open>The inner loop of \<open>Zoo::load_binary\<close>, over the bits \<open>j\<close> of
  \<open>bytesHolder\<close> in chunk \<open>i\<close>; its state is \<open>grid\<close>. The remainder and the
  quotient by \<open>width\<close> (here \<open>w\<close>) are unsigned, \<open>i\<close> and \<open>width\<close> being
  converted. They are reached with \<open>width \<noteq> 0\<close> only, since \<open>loops = 0\<close> when
  \<open>width = 0\<close>.\<close>

definition unpack_bits :: "u32 \<Rightarrow> u32 \<Rightarrow> u32 \<Rightarrow> Grid \<Rightarrow> error + Grid" where
  "unpack_bits w i bytesHolder grid =
     for_each (urange 0 (sizeOfInt * 8)) (\<lambda>j grid.
       let a = push_bit (unat (bitsInt - 1 - j)) bytesHolder;
           a = drop_bit (unat (bitsInt - 1)) a
       in if a = 1 then
            let x = ((i * sizeOfInt * 8) + j) mod w;
                y = ((i * sizeOfInt * 8) + j) div w
            in op_ref_write grid x y ALIVE
          else Inr grid)
       grid"

text \<open>The body of the outer loop of \<open>Zoo::load_binary\<close>, for chunk \<open>i\<close>; its state
  is \<open>(ifs, bytesHolder, grid)\<close>.\<close>

definition read_chunk ::
  "u32 \<Rightarrow> u32 \<Rightarrow> ifstream \<times> u32 \<times> Grid \<Rightarrow> error + ifstream \<times> u32 \<times> Grid" where
  "read_chunk w i = (\<lambda>(ifs, bytesHolder, grid).
     if eofbit ifs then Inl TruncatedInput
     else
       let (bytesHolder, ifs) = ifs_read ifs bytesHolder in
       ebind (unpack_bits w i bytesHolder grid)
         (\<lambda>grid. Inr (ifs, bytesHolder, grid)))"

text \<open>The number of chunks, as \<open>Zoo::load_binary\<close> computes it from \<open>width\<close>
  and \<open>height\<close> (here \<open>w\<close> and \<open>h\<close>): \<open>width * height\<close> is an \<open>int\<close> product,
  taken as wrapping, and converted for the unsigned division by \<open>bitsInt\<close>.\<close>

definition load_loops :: "u32 \<Rightarrow> u32 \<Rightarrow> u32" where
  "load_loops w h =
     (let loops = (w * h) div bitsInt
      in if (h * w) mod bitsInt \<noteq> 0 then loops + 1 else loops)"

text \<open>\<open>Zoo::load_binary(path)\<close> on the bytes of the file. \<open>height\<close>, \<open>width\<close>
  and \<open>bytesHolder\<close> are not initialised in the source: their first contents are
  the parameters \<open>height0\<close>, \<open>width0\<close> and \<open>bytesHolder0\<close>. The source reads
  \<open>height\<close> first and \<open>width\<close> second.\<close>

definition load_binary :: "u32 \<Rightarrow> u32 \<Rightarrow> u32 \<Rightarrow> byte list \<Rightarrow> error + Grid" where
  "load_binary height0 width0 bytesHolder0 file =
     (let ifs = \<lparr>rest = file, eofbit = False\<rparr>;
          (height, ifs) = ifs_read ifs height0;
          (width, ifs) = ifs_read ifs width0;
          grid = Grid_new width height;
          loops = load_loops width height
      in ebind
           (for_each (srange_lt 0 loops) (read_chunk width) (ifs, bytesHolder0, grid))
           (\<lambda>(ifs, bytesHolder, grid). Inr grid))"

text \<open>The class invariant of \<open>Grid\<close>: the vector holds \<open>width * height\<close> cells, and
  the product did not wrap around.\<close>

definition grid_inv :: "Grid \<Rightarrow> bool" where
  "grid_inv g \<longleftrightarrow>
     length (gridVector g) = unat (width g) * unat (height g) \<and>
     unat (width g) * unat (height g) < 2 ^ 32"

text \<open>The pairs \<open>(x, y)\<close> that two nested loops visit, \<open>y\<close> in the outer loop
  and \<open>x\<close> in the inner one, in the order of the visits.\<close>

definition pairs :: "'a list \<Rightarrow> 'b list \<Rightarrow> ('a \<times> 'b) list" where
  "pairs xs ys = concat (map (\<lambda>y. map (\<lambda>x. (x, y)) xs) ys)"

section \<open>Indexing\<close>

lemma valid_index:
  assumes "grid_inv g" "x < width g" "y < height g"
  shows "unat (get_index g x y) = unat (width g) * unat y + unat x"
    and "unat (width g) * unat y + unat x < length (gridVector g)"
proof -
  have x: "unat x < unat (width g)" and y: "unat y < unat (height g)"
    using assms by (simp_all add: word_less_nat_alt)
  have "unat (width g) * unat y + unat x < unat (width g) * unat y + unat (width g)"
    using x by simp
  also have "\<dots> = unat (width g) * Suc (unat y)" by simp
  also have "\<dots> \<le> unat (width g) * unat (height g)"
    using y by (intro mult_le_mono2) simp
  finally have lt: "unat (width g) * unat y + unat x < unat (width g) * unat (height g)" .
  then show "unat (width g) * unat y + unat x < length (gridVector g)"
    using assms(1) by (simp add: grid_inv_def)
  have "unat (width g) * unat y + unat x < 2 ^ 32"
    using lt assms(1) by (simp add: grid_inv_def)
  then show "unat (get_index g x y) = unat (width g) * unat y + unat x"
    by (simp add: get_index_def get_index_new_grid_def unat_word_ariths mod_mult_right_eq
        mod_add_left_eq)
qed

lemma index_inj:
  fixes w x y x' y' :: nat
  assumes "x < w" "x' < w" "w * y + x = w * y' + x'"
  shows "x = x' \<and> y = y'"
proof -
  have "x = (w * y + x) mod w" using assms(1) by simp
  also have "\<dots> = (w * y' + x') mod w" by (simp only: assms(3))
  also have "\<dots> = x'" using assms(2) by simp
  finally have xx: "x = x'" .
  have "y = (w * y + x) div w" using assms(1) by simp
  also have "\<dots> = (w * y' + x') div w" by (simp only: assms(3))
  also have "\<dots> = y'" using assms(2) by simp
  finally have "y = y'" .
  with xx show ?thesis by simp
qed

lemma get_valid:
  assumes "grid_inv g" "x < width g" "y < height g"
  shows "get g x y = Inr (gridVector g ! (unat (width g) * unat y + unat x))"
  using assms valid_index[OF assms]
  by (simp add: get_def op_const_def are_valid_coordinates_def vec_read_def)

lemma op_const_valid:
  assumes "grid_inv g" "x < width g" "y < height g"
  shows "op_const g x y = Inr (gridVector g ! (unat (width g) * unat y + unat x))"
  using assms valid_index[OF assms]
  by (simp add: op_const_def are_valid_coordinates_def vec_read_def)

lemma op_ref_read_valid:
  assumes "grid_inv g" "x < width g" "y < height g"
  shows "op_ref_read g x y = Inr (gridVector g ! (unat (width g) * unat y + unat x))"
  using assms valid_index[OF assms]
  by (simp add: op_ref_read_def are_valid_coordinates_def vec_read_def)

lemma op_ref_write_valid:
  assumes "grid_inv g" "x < width g" "y < height g"
  shows "op_ref_write g x y c =
           Inr (g\<lparr>gridVector := (gridVector g)[unat (width g) * unat y + unat x := c]\<rparr>)"
  using assms valid_index[OF assms]
  by (simp add: op_ref_write_def are_valid_coordinates_def vec_write_def ebind_def)

lemma set_cell_valid:
  assumes "grid_inv g" "x < width g" "y < height g"
  shows "set_cell g x y c =
           Inr (g\<lparr>gridVector := (gridVector g)[unat (width g) * unat y + unat x := c]\<rparr>)"
  using assms op_ref_write_valid[OF assms]
  by (simp add: set_cell_def are_valid_coordinates_def)

lemma grid_inv_update:
  "grid_inv g \<Longrightarrow> grid_inv (g\<lparr>gridVector := (gridVector g)[i := c]\<rparr>)"
  by (simp add: grid_inv_def)

lemma get_update_same:
  assumes "grid_inv g" "x < width g" "y < height g"
  shows "get (g\<lparr>gridVector := (gridVector g)[unat (width g) * unat y + unat x := c]\<rparr>) x y
           = Inr c"
proof -
  let ?g' = "g\<lparr>gridVector := (gridVector g)[unat (width g) * unat y + unat x := c]\<rparr>"
  have inv: "grid_inv ?g'" using assms(1) by (rule grid_inv_update)
  have "get ?g' x y = Inr (gridVector ?g' ! (unat (width ?g') * unat y + unat x))"
    by (rule get_valid[OF inv]) (use assms in simp_all)
  then show ?thesis using valid_index(2)[OF assms] by simp
qed

lemma get_update_other:
  assumes "grid_inv g" "x < width g" "y < height g" "x' < width g" "y' < height g"
    and "(x', y') \<noteq> (x, y)"
  shows "get (g\<lparr>gridVector := (gridVector g)[unat (width g) * unat y + unat x := c]\<rparr>) x' y'
           = get g x' y'"
proof -
  let ?g' = "g\<lparr>gridVector := (gridVector g)[unat (width g) * unat y + unat x := c]\<rparr>"
  have inv: "grid_inv ?g'" using assms(1) by (rule grid_inv_update)
  have ne: "unat (width g) * unat y + unat x \<noteq> unat (width g) * unat y' + unat x'"
  proof
    assume eq: "unat (width g) * unat y + unat x = unat (width g) * unat y' + unat x'"
    have "unat x = unat x' \<and> unat y = unat y'"
      by (rule index_inj[OF _ _ eq]) (use assms in \<open>simp_all add: word_less_nat_alt\<close>)
    then show False using assms(6) by (simp add: word_unat_eq_iff)
  qed
  have "get ?g' x' y' = Inr (gridVector ?g' ! (unat (width ?g') * unat y' + unat x'))"
    by (rule get_valid[OF inv]) (use assms in simp_all)
  also have "\<dots> = Inr (gridVector g ! (unat (width g) * unat y' + unat x'))"
    using ne by simp
  also have "\<dots> = get g x' y'"
    using get_valid[OF assms(1,4,5)] by simp
  finally show ?thesis .
qed

section \<open>Loops\<close>

lemma ebind_Inr [simp]: "ebind (Inr a) f = f a"
  by (simp add: ebind_def)

lemma ebind_Inl [simp]: "ebind (Inl e) f = Inl e"
  by (simp add: ebind_def)

lemma for_each_append:
  "for_each (xs @ ys) body s = ebind (for_each xs body s) (for_each ys body)"
  by (induction xs arbitrary: s) (auto split: sum.splits)

lemma for_each_snoc:
  "for_each (xs @ [x]) body s = ebind (for_each xs body s) (body x)"
  by (simp add: for_each_append ebind_def split: sum.splits)

lemma set_pairs: "set (pairs xs ys) = set xs \<times> set ys"
  by (auto simp: pairs_def)

lemma for_each_map:
  "for_each (map f xs) body s = for_each xs (\<lambda>x. body (f x)) s"
  by (induction xs arbitrary: s) (auto split: sum.splits)

lemma for_each_nested:
  "for_each ys (\<lambda>y. for_each xs (\<lambda>x. body x y)) s
     = for_each (pairs xs ys) (\<lambda>(x, y). body x y) s"
proof (induction ys arbitrary: s)
  case Nil
  then show ?case by (simp add: pairs_def)
next
  case (Cons y ys)
  have "pairs xs (y # ys) = map (\<lambda>x. (x, y)) xs @ pairs xs ys"
    by (simp add: pairs_def)
  then show ?case
    using Cons.IH by (simp add: for_each_append for_each_map ebind_def split: sum.splits)
qed

lemma set_urange: "set (urange a b) = {v. a \<le> v \<and> v < b}"
proof (intro set_eqI iffI)
  fix v assume "v \<in> set (urange a b)"
  then obtain n where n: "unat a \<le> n" "n < unat b" "v = word_of_nat n"
    by (auto simp: urange_def)
  have "n < 2 ^ 32" using n(2) unsigned_less[of b, where 'a=nat] by simp
  then have "unat v = n" using n(3) by (simp add: unat_of_nat)
  then show "v \<in> {v. a \<le> v \<and> v < b}"
    using n by (simp add: word_le_nat_alt word_less_nat_alt)
next
  fix v assume "v \<in> {v. a \<le> v \<and> v < b}"
  then have "unat a \<le> unat v" "unat v < unat b"
    by (simp_all add: word_le_nat_alt word_less_nat_alt)
  then have "unat v \<in> set [unat a..<unat b]" by simp
  then have "(word_of_nat (unat v) :: u32) \<in> word_of_nat ` set [unat a..<unat b]"
    by (rule imageI)
  then show "v \<in> set (urange a b)" by (simp add: urange_def)
qed

lemma grid_inv_Grid_new:
  "unat w * unat h < 2 ^ 32 \<Longrightarrow> grid_inv (Grid_new w h)"
  by (simp add: grid_inv_def Grid_new_def unat_word_ariths)

lemma Grid_new_dims [simp]: "width (Grid_new w h) = w" "height (Grid_new w h) = h"
  by (simp_all add: Grid_new_def)

text \<open>The loops that copy cells of a grid into another one.\<close>

lemma copy_loop:
  assumes src: "grid_inv src"
    and ng0: "grid_inv ng0"
    and valid: "\<forall>(x, y) \<in> set ps. x < width src \<and> y < height src
                  \<and> fx x y < width ng0 \<and> fy x y < height ng0"
    and inj: "inj_on (\<lambda>(x, y). (fx x y, fy x y)) (set ps)"
  shows "\<exists>ng. for_each ps (\<lambda>(x, y) newGrid.
                 ebind (get src x y) (\<lambda>c. op_ref_write newGrid (fx x y) (fy x y) c)) ng0 = Inr ng
           \<and> grid_inv ng \<and> width ng = width ng0 \<and> height ng = height ng0
           \<and> (\<forall>(x, y) \<in> set ps. get ng (fx x y) (fy x y) = get src x y)"
  using valid inj
proof (induction ps rule: rev_induct)
  case Nil
  then show ?case using ng0 by simp
next
  case (snoc p ps)
  obtain x y where p: "p = (x, y)" by (cases p)
  let ?body = "\<lambda>(x, y) newGrid.
                 ebind (get src x y) (\<lambda>c. op_ref_write newGrid (fx x y) (fy x y) c)"
  have v': "\<forall>(x, y) \<in> set ps. x < width src \<and> y < height src
                  \<and> fx x y < width ng0 \<and> fy x y < height ng0"
    using snoc.prems(1) by auto
  have i': "inj_on (\<lambda>(x, y). (fx x y, fy x y)) (set ps)"
    using snoc.prems(2) by (auto simp: inj_on_def)
  from snoc.IH[OF v' i'] obtain ng where ng:
    "for_each ps ?body ng0 = Inr ng" "grid_inv ng" "width ng = width ng0"
    "height ng = height ng0" "\<forall>(x, y) \<in> set ps. get ng (fx x y) (fy x y) = get src x y"
    by blast
  have pv: "x < width src" "y < height src" "fx x y < width ng" "fy x y < height ng"
    using snoc.prems(1) p ng(3,4) by auto
  obtain c where c: "get src x y = Inr c"
    using get_valid[OF src pv(1,2)] by blast
  let ?ng' = "ng\<lparr>gridVector :=
               (gridVector ng)[unat (width ng) * unat (fy x y) + unat (fx x y) := c]\<rparr>"
  have w: "op_ref_write ng (fx x y) (fy x y) c = Inr ?ng'"
    by (rule op_ref_write_valid[OF ng(2) pv(3,4)])
  have run: "for_each (ps @ [p]) ?body ng0 = Inr ?ng'"
    using ng(1) c w by (simp add: for_each_snoc p)
  have inv': "grid_inv ?ng'" using ng(2) by (rule grid_inv_update)
  have cells: "\<forall>(x', y') \<in> set (ps @ [p]). get ?ng' (fx x' y') (fy x' y') = get src x' y'"
  proof (clarify)
    fix x' y' assume mem: "(x', y') \<in> set (ps @ [p])"
    show "get ?ng' (fx x' y') (fy x' y') = get src x' y'"
    proof (cases "(fx x' y', fy x' y') = (fx x y, fy x y)")
      case True
      then have "(x', y') = (x, y)"
        using snoc.prems(2) mem p by (auto simp: inj_on_def)
      then show ?thesis
        using get_update_same[OF ng(2) pv(3,4), of c] c by simp
    next
      case False
      then have "(x', y') \<noteq> (x, y)" by auto
      then have mem': "(x', y') \<in> set ps" using mem p by auto
      then have v2: "fx x' y' < width ng" "fy x' y' < height ng"
        using v' ng(3,4) by auto
      have "get ?ng' (fx x' y') (fy x' y') = get ng (fx x' y') (fy x' y')"
        by (rule get_update_other[OF ng(2) pv(3,4) v2 False])
      then show ?thesis using ng(5) mem' by auto
    qed
  qed
  show ?case
    using run inv' ng(3,4) cells by (intro exI[of _ ?ng']) simp
qed



lemma word_sub_lt:
  fixes a b c :: u32
  assumes "a \<le> b" "b < c"
  shows "b - a < c - a"
proof -
  have "unat (b - a) = unat b - unat a" using assms(1) by (rule unat_sub)
  moreover have "unat (c - a) = unat c - unat a"
    using assms by (intro unat_sub) simp
  ultimately show ?thesis
    using assms by (simp add: word_less_nat_alt word_le_nat_alt)
qed

lemma word_add_in_range:
  fixes a b i :: u32
  assumes "a \<le> b" "i < b - a"
  shows "a \<le> a + i" "a + i < b"
proof -
  have ba: "unat (b - a) = unat b - unat a" using assms(1) by (rule unat_sub)
  have i: "unat i < unat b - unat a" using assms(2) ba by (simp add: word_less_nat_alt)
  have "unat b < 2 ^ 32" using unsigned_less[of b, where 'a=nat] by simp
  then have sum: "unat (a + i) = unat a + unat i"
    using i by (simp add: unat_word_ariths)
  show "a \<le> a + i" using sum by (simp add: word_le_nat_alt)
  show "a + i < b" using sum i by (simp add: word_less_nat_alt)
qed

lemma crop_ok:
  assumes inv: "grid_inv g"
    and ok: "x0 < width g" "x1 \<le> width g" "y0 < height g" "y1 \<le> height g"
      "x0 \<le> x1" "y0 \<le> y1"
  shows "\<exists>g'. crop g x0 y0 x1 y1 = Inr g' \<and> grid_inv g'
           \<and> width g' = x1 - x0 \<and> height g' = y1 - y0
           \<and> (\<forall>i j. i < x1 - x0 \<and> j < y1 - y0 \<longrightarrow> get g' i j = get g (x0 + i) (y0 + j))"
proof -
  let ?ps = "pairs (urange x0 x1) (urange y0 y1)"
  let ?ng0 = "Grid_new (x1 - x0) (y1 - y0)"
  have le: "unat (x1 - x0) \<le> unat (width g)" "unat (y1 - y0) \<le> unat (height g)"
    using ok by (simp_all add: unat_sub word_le_nat_alt)
  have "unat (x1 - x0) * unat (y1 - y0) \<le> unat (width g) * unat (height g)"
    using le by (rule mult_le_mono)
  then have ng0: "grid_inv ?ng0"
    using inv by (intro grid_inv_Grid_new) (simp add: grid_inv_def)
  have valid: "\<forall>(x, y) \<in> set ?ps. x < width g \<and> y < height g
                  \<and> x - x0 < width ?ng0 \<and> y - y0 < height ?ng0"
    using ok by (auto simp: set_pairs set_urange word_sub_lt)
  have inj: "inj_on (\<lambda>(x, y). (x - x0, y - y0)) (set ?ps)"
    by (auto simp: inj_on_def)
  from copy_loop[OF inv ng0 valid inj] obtain ng where ng:
    "for_each ?ps (\<lambda>(x, y) newGrid.
        ebind (get g x y) (\<lambda>c. op_ref_write newGrid (x - x0) (y - y0) c)) ?ng0 = Inr ng"
    "grid_inv ng" "width ng = width ?ng0" "height ng = height ?ng0"
    "\<forall>(x, y) \<in> set ?ps. get ng (x - x0) (y - y0) = get g x y"
    by blast
  have run: "crop g x0 y0 x1 y1 = Inr ng"
    using ok ng(1) by (simp add: crop_def for_each_nested Let_def not_less[symmetric])
  have cells: "\<forall>i j. i < x1 - x0 \<and> j < y1 - y0 \<longrightarrow> get ng i j = get g (x0 + i) (y0 + j)"
  proof (intro allI impI)
    fix i j assume ij: "i < x1 - x0 \<and> j < y1 - y0"
    have "(x0 + i, y0 + j) \<in> set ?ps"
      using word_add_in_range[OF ok(5), of i] word_add_in_range[OF ok(6), of j] ij
      by (simp add: set_pairs set_urange)
    then have "get ng (x0 + i - x0) (y0 + j - y0) = get g (x0 + i) (y0 + j)"
      using ng(5) by blast
    then show "get ng i j = get g (x0 + i) (y0 + j)" by simp
  qed
  show ?thesis using run ng(2,3,4) cells by (intro exI[of _ ng]) simp
qed

lemma crop_error:
  "crop g x0 y0 x1 y1 = Inl e \<Longrightarrow> grid_inv g \<Longrightarrow>
     e = InvalidArgument \<and> (x0 \<ge> width g \<or> x1 > width g \<or> y0 \<ge> height g \<or> y1 > height g
        \<or> x0 > x1 \<or> y0 > y1)"
  using crop_ok[of g x0 x1 y0 y1]
  by (cases "x0 \<ge> width g \<or> x1 > width g \<or> y0 \<ge> height g \<or> y1 > height g
        \<or> x0 > x1 \<or> y0 > y1") (auto simp: crop_def not_le not_less split: if_splits)

















section \<open>Reading chunks\<close>

lemma for_each_preserves:
  assumes "P s"
    and "\<And>x s. x \<in> set xs \<Longrightarrow> P s \<Longrightarrow> \<exists>s'. body x s = Inr s' \<and> P s'"
  shows "\<exists>s'. for_each xs body s = Inr s' \<and> P s'"
  using assms
proof (induction xs arbitrary: s)
  case Nil
  then show ?case by simp
next
  case (Cons x xs)
  from Cons.prems(2)[of x s] Cons.prems(1) obtain s1 where s1: "body x s = Inr s1" "P s1"
    by auto
  have "\<exists>s'. for_each xs body s1 = Inr s' \<and> P s'"
    by (rule Cons.IH[OF s1(2)]) (use Cons.prems(2) in auto)
  then show ?case using s1(1) by simp
qed

lemma for_each_error:
  "for_each xs body s = Inl e \<Longrightarrow> \<exists>x s'. body x s' = Inl e"
proof (induction xs arbitrary: s)
  case Nil
  then show ?case by simp
next
  case (Cons x xs)
  then show ?case by (cases "body x s") auto
qed

lemma op_ref_write_error:
  "op_ref_write g x y c = Inl e \<Longrightarrow> e = OutOfBounds \<or> e = VectorRange"
  by (auto simp: op_ref_write_def vec_write_def ebind_def split: if_splits)

lemma unpack_bits_error:
  "unpack_bits w i b g = Inl e \<Longrightarrow> e = OutOfBounds \<or> e = VectorRange"
  unfolding unpack_bits_def
  by (drule for_each_error) (auto simp: Let_def split: if_splits dest: op_ref_write_error)

lemma read_chunk_error:
  "read_chunk w i s = Inl e \<Longrightarrow> e = TruncatedInput \<or> e = OutOfBounds \<or> e = VectorRange"
  by (cases s)
    (auto simp: read_chunk_def Let_def ebind_def split: if_splits prod.splits sum.splits
      dest: unpack_bits_error)

lemma load_binary_error:
  "load_binary h0 w0 b0 file = Inl e \<Longrightarrow>
     e = TruncatedInput \<or> e = OutOfBounds \<or> e = VectorRange"
  unfolding load_binary_def Let_def
  by (auto simp: ebind_def split: prod.splits sum.splits
      dest!: for_each_error read_chunk_error)

lemma ifs_read_full:
  "\<not> eofbit ifs \<Longrightarrow> 4 \<le> length (rest ifs) \<Longrightarrow>
     ifs_read ifs v = (bytes_u32 (take 4 (rest ifs)), ifs\<lparr>rest := drop 4 (rest ifs)\<rparr>)"
  by (simp add: ifs_read_def)

lemma ifs_read_short:
  "\<not> eofbit ifs \<Longrightarrow> length (rest ifs) < 4 \<Longrightarrow> eofbit (snd (ifs_read ifs v))"
  by (simp add: ifs_read_def)

lemma load_binary_header:
  assumes "8 \<le> length file"
  shows "load_binary h0 w0 b0 file =
           ebind (for_each (srange_lt 0 (load_loops (bytes_u32 (take 4 (drop 4 file)))
                                                   (bytes_u32 (take 4 file))))
                    (read_chunk (bytes_u32 (take 4 (drop 4 file))))
                    (\<lparr>rest = drop 8 file, eofbit = False\<rparr>, b0,
                     Grid_new (bytes_u32 (take 4 (drop 4 file))) (bytes_u32 (take 4 file))))
             (\<lambda>(ifs, bytesHolder, grid). Inr grid)"
proof -
  have "4 \<le> length file" "4 \<le> length file - 4" using assms by simp_all
  then show ?thesis by (simp add: load_binary_def ifs_read_def Let_def)
qed

lemma sint_small:
  fixes x :: u32
  assumes "unat x < 2 ^ 31"
  shows "sint x = int (unat x)"
proof -
  have u: "uint x < 2 ^ 31"
    using assms by (simp add: unat_eq_nat_uint nat_less_iff del: nat_uint_eq)
  have "sint (word_of_int (uint x) :: u32) = (uint x + 2 ^ 31) mod 2 ^ 32 - 2 ^ 31"
    using int_word_sint[of "uint x", where 'a=32] by simp
  moreover have "(uint x + 2 ^ 31) mod 2 ^ 32 = uint x + 2 ^ 31"
    using u by (intro mod_pos_pos_trivial) simp_all
  ultimately show ?thesis by simp
qed

lemma upto_as_upt: "[0..int L - 1] = map int [0..<L]"
proof (induction L)
  case 0
  then show ?case by simp
next
  case (Suc L)
  have "[0..int (Suc L) - 1] = [0..int L - 1] @ [int L]"
    using upto_rec2[of 0 "int L"] by simp
  then show ?case using Suc by simp
qed

lemma srange_lt_0:
  assumes "unat b < 2 ^ 31"
  shows "srange_lt 0 b = map word_of_nat [0..<unat b]"
proof -
  have "sint b = int (unat b)" using assms by (rule sint_small)
  then have "srange_lt 0 b = map word_of_int (map int [0..<unat b])"
    unfolding srange_lt_def using upto_as_upt[of "unat b"] by (simp del: of_nat_unat)
  then show ?thesis by (simp add: comp_def)
qed

lemma ceil32_a:
  fixes n :: nat
  assumes "n mod 32 = 0"
  shows "n div 32 = (n + 31) div 32"
proof -
  obtain q where q: "n = 32 * q" using assms by (auto simp: mod_eq_0_iff_dvd)
  show ?thesis unfolding q by simp
qed

lemma ceil32_b:
  fixes n :: nat
  assumes "n mod 32 \<noteq> 0"
  shows "n div 32 + 1 = (n + 31) div 32"
proof -
  define q r where "q = n div 32" and "r = n mod 32"
  have r: "0 < r" "r < 32" using assms by (simp_all add: r_def)
  have n: "n = 32 * q + r" by (simp add: q_def r_def)
  have "n + 31 = 32 * (q + 1) + (r - 1)" using r n by simp
  then have "(n + 31) div 32 = (32 * (q + 1) + (r - 1)) div 32" by simp
  also have "\<dots> = q + 1" using r by simp
  finally show ?thesis by (simp add: q_def)
qed


lemma unat_load_loops:
  assumes "unat w * unat h < 2 ^ 31"
  shows "unat (load_loops w h) = (unat w * unat h + 31) div 32"
proof -
  define n where "n = unat w * unat h"
  have n: "n < 2 ^ 31" using assms by (simp add: n_def)
  have "unat (w * h) = n mod 2 ^ 32"
    by (simp add: unat_word_ariths n_def)
  then have wh: "unat (w * h) = n" using n by simp
  have hw: "h * w = w * h" by (simp add: mult.commute)
  have d: "unat ((w * h) div 32) = n div 32"
    by (simp add: unat_div wh)
  have "((w * h) mod 32 = 0) = (unat ((w * h) mod 32) = 0)"
    by (simp only: unat_eq_0)
  also have "\<dots> = (n mod 32 = 0)"
    by (simp add: unat_mod wh)
  finally have m: "((w * h) mod 32 = 0) = (n mod 32 = 0)" .
  have "n div 32 + 1 < 2 ^ 32" using n by simp
  then have "unat ((w * h) div 32 + 1) = n div 32 + 1"
    using d by (simp add: unat_word_ariths)
  then have s: "n mod 32 \<noteq> 0 \<Longrightarrow> unat ((w * h) div 32 + 1) = (n + 31) div 32"
    using ceil32_b[of n] by simp
  have d': "n mod 32 = 0 \<Longrightarrow> unat ((w * h) div 32) = (n + 31) div 32"
    using d ceil32_a[of n] by simp
  have "unat (load_loops w h) = (n + 31) div 32"
    using d' s m by (simp add: load_loops_def Let_def bitsInt_def sizeOfInt_def hw)
  then show ?thesis by (simp add: n_def)
qed

lemma unpack_bits_ok:
  assumes inv: "grid_inv gr"
    and bits: "32 * m + 32 \<le> unat (width gr) * unat (height gr)"
  shows "\<exists>gr'. unpack_bits (width gr) (word_of_nat m) b gr = Inr gr'
           \<and> grid_inv gr' \<and> width gr' = width gr \<and> height gr' = height gr"
  unfolding unpack_bits_def
proof (rule for_each_preserves[where
      P = "\<lambda>g. grid_inv g \<and> width g = width gr \<and> height g = height gr"])
  show "grid_inv gr \<and> width gr = width gr \<and> height gr = height gr"
    using inv by simp
next
  fix j :: u32 and g :: Grid
  assume j: "j \<in> set (urange 0 (sizeOfInt * 8))"
    and g: "grid_inv g \<and> width g = width gr \<and> height g = height gr"
  let ?W = "unat (width gr)" and ?H = "unat (height gr)"
  have size: "?W * ?H < 2 ^ 32" using inv by (simp add: grid_inv_def)
  have j32: "unat j < 32"
    using j by (simp add: set_urange sizeOfInt_def word_less_nat_alt)
  let ?idx = "word_of_nat m * sizeOfInt * 8 + j :: u32"
  have lt: "32 * m + unat j < ?W * ?H" using bits j32 by simp
  have "?idx = word_of_nat (32 * m + unat j)"
    by (simp add: sizeOfInt_def)
  then have idx: "unat ?idx = 32 * m + unat j"
    using lt size by (simp add: unat_of_nat del: of_nat_add of_nat_mult)
  have Wpos: "0 < ?W" using lt by (cases "?W = 0") simp_all
  have x: "?idx mod width gr < width g"
    using g Wpos by (simp add: word_less_nat_alt unat_mod)
  have "unat ?idx div ?W < ?H"
    using lt idx Wpos by (simp add: less_mult_imp_div_less mult.commute)
  then have y: "?idx div width gr < height g"
    using g by (simp add: word_less_nat_alt unat_div)
  have g': "grid_inv g" using g by simp
  have "\<exists>s'. op_ref_write g (?idx mod width gr) (?idx div width gr) ALIVE = Inr s'
          \<and> grid_inv s' \<and> width s' = width gr \<and> height s' = height gr"
    using op_ref_write_valid[OF g' x y, of ALIVE] grid_inv_update[OF g'] g by simp
  then show "\<exists>s'. (let a = push_bit (unat (bitsInt - 1 - j)) b;
                      a = drop_bit (unat (bitsInt - 1)) a
                  in if a = 1
                     then let x = ?idx mod width gr; y = ?idx div width gr
                          in op_ref_write g x y ALIVE
                     else Inr g) = Inr s'
          \<and> grid_inv s' \<and> width s' = width gr \<and> height s' = height gr"
    using g by (simp add: Let_def)
qed


lemma ceil32_le:
  fixes n :: nat
  shows "(n + 31) div 32 \<le> n"
proof (cases "n = 0")
  case True
  then show ?thesis by simp
next
  case False
  then have "n + 31 \<le> 32 * n" by simp
  then have "(n + 31) div 32 \<le> (32 * n) div 32" by (rule div_le_mono)
  then show ?thesis by simp
qed

lemma ceil32_mult:
  fixes n :: nat
  shows "32 * ((n + 31) div 32) \<le> n + 31"
  by (rule times_div_less_eq_dividend)

lemma div4_less:
  fixes a L :: nat
  assumes "a < 4 * (L - 1)"
  shows "a div 4 + 1 < L"
proof -
  have "a div 4 < L - 1"
    using assms by (intro less_mult_imp_div_less) (simp add: mult.commute)
  then show ?thesis by simp
qed

lemma div4_ge:
  fixes a m :: nat
  assumes "m \<le> a div 4"
  shows "4 * m \<le> a"
proof -
  have "4 * m \<le> 4 * (a div 4)" using assms by simp
  also have "\<dots> \<le> a" by (rule times_div_less_eq_dividend)
  finally show ?thesis .
qed

lemma div4_lt:
  fixes a :: nat
  shows "a < 4 * (a div 4) + 4"
proof -
  have "a = 4 * (a div 4) + a mod 4" by simp
  moreover have "a mod 4 < 4" by simp
  ultimately show ?thesis by linarith
qed

lemma upt_split3:
  assumes "k + 1 < L"
  shows "[0..<L] = [0..<k + 1] @ (k + 1) # [k + 2..<L]"
proof -
  obtain d where d: "L = (k + 1) + d" using assms less_imp_add_positive by blast
  have "[0..<(k + 1) + d] = [0..<k + 1] @ [k + 1..<(k + 1) + d]"
    by (rule upt_add_eq_append) simp
  moreover have "[k + 1..<L] = (k + 1) # [k + 2..<L]"
    using assms by (simp add: upt_conv_Cons)
  ultimately show ?thesis using d by simp
qed


lemma read_chunks_prefix:
  fixes bs :: "byte list" and w h :: u32
  assumes n8: "8 \<le> length bs"
    and k: "k = (length bs - 8) div 4"
    and bits: "32 * (k + 1) \<le> unat w * unat h"
    and size: "unat w * unat h < 2 ^ 32"
    and m: "m \<le> k + 1"
  shows "\<exists>ifs bh gr.
           for_each (map word_of_nat [0..<m]) (read_chunk w)
             (\<lparr>rest = drop 8 bs, eofbit = False\<rparr>, b0, Grid_new w h) = Inr (ifs, bh, gr)
           \<and> grid_inv gr \<and> width gr = w \<and> height gr = h
           \<and> (if m \<le> k then \<not> eofbit ifs \<and> rest ifs = drop (8 + 4 * m) bs
               else eofbit ifs)"
  using m
proof (induction m)
  case 0
  then show ?case using grid_inv_Grid_new[OF size] by simp
next
  case (Suc m)
  then have mk: "m \<le> k" by simp
  from Suc.IH mk obtain ifs bh gr where st:
    "for_each (map word_of_nat [0..<m]) (read_chunk w)
       (\<lparr>rest = drop 8 bs, eofbit = False\<rparr>, b0, Grid_new w h) = Inr (ifs, bh, gr)"
    "grid_inv gr" "width gr = w" "height gr = h"
    "\<not> eofbit ifs" "rest ifs = drop (8 + 4 * m) bs"
    by auto
  obtain bh' ifs' where rd: "ifs_read ifs bh = (bh', ifs')" by (cases "ifs_read ifs bh")
  have "32 * m + 32 \<le> 32 * (k + 1)" using mk by simp
  then have "32 * m + 32 \<le> unat (width gr) * unat (height gr)"
    using bits st(3,4) by simp
  from unpack_bits_ok[OF st(2) this, of bh'] obtain gr' where gr':
    "unpack_bits w (word_of_nat m) bh' gr = Inr gr'" "grid_inv gr'"
    "width gr' = w" "height gr' = h"
    using st(3,4) by auto
  have chunk: "read_chunk w (word_of_nat m) (ifs, bh, gr) = Inr (ifs', bh', gr')"
    using st(5) rd gr'(1) by (simp add: read_chunk_def)
  have run: "for_each (map word_of_nat [0..<Suc m]) (read_chunk w)
       (\<lparr>rest = drop 8 bs, eofbit = False\<rparr>, b0, Grid_new w h) = Inr (ifs', bh', gr')"
    using st(1) chunk by (simp add: for_each_snoc)
  have len: "length (rest ifs) = length bs - (8 + 4 * m)"
    using st(6) by simp
  have stream: "if Suc m \<le> k then \<not> eofbit ifs' \<and> rest ifs' = drop (8 + 4 * Suc m) bs
                else eofbit ifs'"
  proof (cases "Suc m \<le> k")
    case True
    then have "4 * Suc m \<le> length bs - 8" unfolding k by (rule div4_ge)
    then have "4 \<le> length (rest ifs)" using len n8 by simp
    then have "ifs' = ifs\<lparr>rest := drop 4 (rest ifs)\<rparr>"
      using ifs_read_full[OF st(5), of bh] rd by simp
    then show ?thesis using True st(5,6) by (simp add: add.commute)
  next
    case False
    then have "m = k" using mk by simp
    then have "length bs - 8 < 4 * m + 4" using div4_lt[of "length bs - 8"] k by simp
    then have "length (rest ifs) < 4" using len n8 by simp
    then have "eofbit ifs'" using ifs_read_short[OF st(5), of bh] rd by simp
    then show ?thesis using False by simp
  qed
  show ?case using run gr'(2,3,4) stream by blast
qed

lemma load_binary_truncated:
  fixes bs :: "byte list"
  defines "w \<equiv> bytes_u32 (take 4 (drop 4 bs))" and "h \<equiv> bytes_u32 (take 4 bs)"
  assumes n8: "8 \<le> length bs"
    and size: "unat w * unat h < 2 ^ 31"
    and short: "length bs < 8 + 4 * ((unat w * unat h + 31) div 32 - 1)"
  shows "load_binary h0 w0 b0 bs = Inl TruncatedInput"
proof -
  define n where "n = unat w * unat h"
  define L where "L = (n + 31) div 32"
  define k where "k = (length bs - 8) div 4"
  have n: "n < 2 ^ 31" using size by (simp add: n_def)
  have uL: "unat (load_loops w h) = L"
    using unat_load_loops[OF size] by (simp add: L_def n_def)
  have "L \<le> n" unfolding L_def by (rule ceil32_le)
  then have "unat (load_loops w h) < 2 ^ 31" using uL n by simp
  then have range: "srange_lt 0 (load_loops w h) = map word_of_nat [0..<L]"
    using srange_lt_0[of "load_loops w h"] uL by simp
  have "length bs - 8 < 4 * (L - 1)" using short n8 by (simp add: L_def n_def)
  then have kL: "k + 1 < L" unfolding k_def by (rule div4_less)
  have "32 * L \<le> n + 31" unfolding L_def by (rule ceil32_mult)
  moreover have "32 * (k + 1) + 32 \<le> 32 * L" using kL by simp
  ultimately have bits: "32 * (k + 1) \<le> unat w * unat h" by (simp add: n_def)
  have size32: "unat w * unat h < 2 ^ 32" using size by simp
  from read_chunks_prefix[OF n8 k_def bits size32, of "k + 1" b0]
  obtain ifs bh gr where pre:
    "for_each (map word_of_nat [0..<k + 1]) (read_chunk w)
       (\<lparr>rest = drop 8 bs, eofbit = False\<rparr>, b0, Grid_new w h) = Inr (ifs, bh, gr)"
    "eofbit ifs"
    by auto
  have "for_each (map word_of_nat [0..<L]) (read_chunk w)
       (\<lparr>rest = drop 8 bs, eofbit = False\<rparr>, b0, Grid_new w h) = Inl TruncatedInput"
    unfolding upt_split3[OF kL] map_append for_each_append using pre
    by (simp add: read_chunk_def)
  then show ?thesis
    using load_binary_header[OF n8, of h0 w0 b0] range by (simp add: w_def h_def)
qed

section \<open>Claims about indexing and merge placement\<close>

text \<open>
  Claim C9, as the code has it. The claim holds on the grids that satisfy the class
  invariant \<open>grid_inv\<close>: the vector has \<open>width * height\<close> cells and that product
  is below \<open>2 ^ 32\<close>, which \<open>Grid::Grid(width, height)\<close> does not check. On such a
  grid, for valid coordinates (\<open>x < width\<close> and \<open>y < height\<close>) \<open>set\<close> followed by
  \<open>get\<close> at the same coordinates returns the value written, the dimensions are
  kept and every other cell reads as before. For \<open>x \<ge> width\<close> or \<open>y \<ge> height\<close>,
  \<open>get\<close>, \<open>set\<close> and both indexing operators fail with the out-of-bounds
  exception; no grid is produced, so the grid is as it was.
\<close>

theorem set_get_indexing:
  assumes "grid_inv g"
  shows "(x < width g \<and> y < height g \<longrightarrow>
           (\<exists>g'. set_cell g x y v = Inr g' \<and> get g' x y = Inr v
              \<and> width g' = width g \<and> height g' = height g \<and> grid_inv g'
              \<and> (\<forall>x' y'. x' < width g \<and> y' < height g \<and> (x', y') \<noteq> (x, y)
                    \<longrightarrow> get g' x' y' = get g x' y')))
       \<and> (\<not> (x < width g \<and> y < height g) \<longrightarrow>
            get g x y = Inl OutOfBounds \<and> set_cell g x y v = Inl OutOfBounds
            \<and> op_const g x y = Inl OutOfBounds \<and> op_ref_read g x y = Inl OutOfBounds
            \<and> op_ref_write g x y v = Inl OutOfBounds)"
proof (intro conjI impI)
  assume xy: "x < width g \<and> y < height g"
  let ?g' = "g\<lparr>gridVector := (gridVector g)[unat (width g) * unat y + unat x := v]\<rparr>"
  have 1: "set_cell g x y v = Inr ?g'"
    using set_cell_valid[OF assms] xy by simp
  have 2: "get ?g' x y = Inr v"
    using get_update_same[OF assms] xy by simp
  have 3: "grid_inv ?g'" using assms by (rule grid_inv_update)
  have 4: "\<forall>x' y'. x' < width g \<and> y' < height g \<and> (x', y') \<noteq> (x, y)
              \<longrightarrow> get ?g' x' y' = get g x' y'"
    using get_update_other[OF assms] xy by blast
  show "\<exists>g'. set_cell g x y v = Inr g' \<and> get g' x y = Inr v
              \<and> width g' = width g \<and> height g' = height g \<and> grid_inv g'
              \<and> (\<forall>x' y'. x' < width g \<and> y' < height g \<and> (x', y') \<noteq> (x, y)
                    \<longrightarrow> get g' x' y' = get g x' y')"
    using 1 2 3 4 by (intro exI[of _ ?g']) simp
next
  assume "\<not> (x < width g \<and> y < height g)"
  then have nv: "\<not> are_valid_coordinates g x y"
    by (simp add: are_valid_coordinates_def)
  show "get g x y = Inl OutOfBounds" using nv by (simp add: get_def)
  show "set_cell g x y v = Inl OutOfBounds" using nv by (simp add: set_cell_def)
  show "op_const g x y = Inl OutOfBounds" using nv by (simp add: op_const_def)
  show "op_ref_read g x y = Inl OutOfBounds" using nv by (simp add: op_ref_read_def)
  show "op_ref_write g x y v = Inl OutOfBounds" using nv by (simp add: op_ref_write_def)
qed

theorem set_get_indexing_witness:
  "grid_inv (Grid_new 2 2)
   \<and> ((1::u32) < width (Grid_new 2 2) \<and> (0::u32) < height (Grid_new 2 2))
   \<and> (\<exists>g'. set_cell (Grid_new 2 2) 1 0 ALIVE = Inr g' \<and> get g' 1 0 = Inr ALIVE
          \<and> width g' = 2 \<and> height g' = 2 \<and> grid_inv g'
          \<and> (\<forall>x' y'. x' < 2 \<and> y' < 2 \<and> (x', y') \<noteq> (1, 0)
                \<longrightarrow> get g' x' y' = get (Grid_new 2 2) x' y'))
   \<and> \<not> ((2::u32) < width (Grid_new 2 2) \<and> (0::u32) < height (Grid_new 2 2))
   \<and> get (Grid_new 2 2) 2 0 = Inl OutOfBounds
   \<and> set_cell (Grid_new 2 2) 2 0 ALIVE = Inl OutOfBounds
   \<and> op_const (Grid_new 2 2) 2 0 = Inl OutOfBounds
   \<and> op_ref_read (Grid_new 2 2) 2 0 = Inl OutOfBounds
   \<and> op_ref_write (Grid_new 2 2) 2 0 ALIVE = Inl OutOfBounds"
proof -
  have inv: "grid_inv (Grid_new 2 2)"
    by (simp add: grid_inv_def Grid_new_def)
  have dims: "width (Grid_new 2 2) = 2" "height (Grid_new 2 2) = 2"
    by (simp_all add: Grid_new_def)
  show ?thesis
    using inv set_get_indexing[OF inv, of 1 0 ALIVE] set_get_indexing[OF inv, of 2 0 ALIVE]
    by (simp add: dims)
qed

text \<open>
  Claim C9 as stated, refuted on a grid whose cell count wraps around.
  \<open>Grid(2147483649, 2)\<close> has \<open>2147483649 * 2 mod 2 ^ 32 = 2\<close> cells, all DEAD. The
  coordinates (2147483647, 1) and (0, 0) are both valid and differ, and
  \<open>get_index(2147483647, 1) = 2147483649 * 1 + 2147483647 = 2 ^ 32\<close> wraps to 0, the
  index of (0, 0), inside the vector: \<open>set(2147483647, 1, ALIVE)\<close> succeeds and turns
  the cell (0, 0) ALIVE.
\<close>

theorem set_changes_other_cell_counterexample:
  "(2147483647 :: u32) < width (Grid_new 2147483649 2)
   \<and> (1 :: u32) < height (Grid_new 2147483649 2)
   \<and> (0 :: u32) < width (Grid_new 2147483649 2)
   \<and> (0 :: u32) < height (Grid_new 2147483649 2)
   \<and> ((0 :: u32), (0 :: u32)) \<noteq> (2147483647, 1)
   \<and> Grid_new 2147483649 2
       = \<lparr>width = 2147483649, height = 2, gridVector = [DEAD, DEAD]\<rparr>
   \<and> get (Grid_new 2147483649 2) 0 0 = Inr DEAD
   \<and> set_cell (Grid_new 2147483649 2) 2147483647 1 ALIVE
       = Inr \<lparr>width = 2147483649, height = 2, gridVector = [ALIVE, DEAD]\<rparr>
   \<and> get \<lparr>width = 2147483649, height = 2, gridVector = [ALIVE, DEAD]\<rparr> 0 0
       = Inr ALIVE"
  by code_simp

text \<open>
  Claim C10. \<open>merge\<close> requires the placement offset to be a valid coordinate of the
  destination: whenever \<open>x0 < width\<close> and \<open>y0 < height\<close> do not both hold, it
  fails with the invalid-argument exception, whatever the source grid is. This covers
  every merge into a 0x0 destination and a source of width or height 0 placed at
  \<open>x0 = width\<close> or \<open>y0 = height\<close>, which would fit.
\<close>

theorem merge_requires_valid_offset:
  assumes "\<not> (x0 < width this \<and> y0 < height this)"
  shows "merge this other x0 y0 alive_only = Inl InvalidArgument"
  using assms by (simp add: merge_def are_valid_coordinates_def)

theorem merge_requires_valid_offset_witness:
  "\<not> ((2::u32) < width (Grid_new 2 2) \<and> (0::u32) < height (Grid_new 2 2))
   \<and> width (Grid_new 0 1) + 2 \<le> width (Grid_new 2 2)
   \<and> height (Grid_new 0 1) + 0 \<le> height (Grid_new 2 2)
   \<and> merge (Grid_new 2 2) (Grid_new 0 1) 2 0 True = Inl InvalidArgument
   \<and> \<not> ((0::u32) < width (Grid_new 0 0) \<and> (0::u32) < height (Grid_new 0 0))
   \<and> merge (Grid_new 0 0) (Grid_new 0 0) 0 0 False = Inl InvalidArgument"
proof -
  have a: "\<not> ((2::u32) < width (Grid_new 2 2) \<and> (0::u32) < height (Grid_new 2 2))"
    by (simp add: Grid_new_def)
  have b: "\<not> ((0::u32) < width (Grid_new 0 0) \<and> (0::u32) < height (Grid_new 0 0))"
    by (simp add: Grid_new_def)
  show ?thesis
    using a b merge_requires_valid_offset[OF a, of "Grid_new 0 1" True]
      merge_requires_valid_offset[OF b, of "Grid_new 0 0" False]
    by (simp add: Grid_new_def)
qed

text \<open>
  Claim C6, evaluated where the code departs from it. The destination is 2x2 with
  its only ALIVE cell at (1,1); the source is 1x1 and DEAD, placed at (1,1) with
  \<open>alive_only = true\<close>. The source fits, the covered cell (1,1) is ALIVE and the
  source cell is DEAD, so the second branch of the loop body runs and writes ALIVE at
  \<open>(x - x0, y - y0) = (0,0)\<close>, a cell outside the overlay window.
\<close>

theorem merge_alive_only_writes_outside_window:
  "merge \<lparr>width = 2, height = 2, gridVector = [DEAD, DEAD, DEAD, ALIVE]\<rparr>
         (Grid_new 1 1) 1 1 True
   = Inr \<lparr>width = 2, height = 2, gridVector = [ALIVE, DEAD, DEAD, ALIVE]\<rparr>"
  by code_simp

text \<open>
  Claim C7, as the code has it. On a grid that satisfies the class invariant,
  \<open>crop\<close> fails with the invalid-argument exception exactly when
  \<open>x0 \<ge> width\<close>, \<open>x1 > width\<close>, \<open>y0 \<ge> height\<close>, \<open>y1 > height\<close>, \<open>x0 > x1\<close>
  or \<open>y0 > y1\<close>: the top-left corner must be a valid coordinate, so an empty
  window at \<open>x0 = x1 = width\<close> or \<open>y0 = y1 = height\<close> is an error. Otherwise it
  returns a grid of size \<open>(x1 - x0) \<times> (y1 - y0)\<close> whose cell \<open>(i, j)\<close> is the source
  cell \<open>(x0 + i, y0 + j)\<close>. The source is an argument that \<open>crop\<close> does not
  return, so it is unchanged.
\<close>

theorem crop_window:
  assumes "grid_inv g"
  shows "(crop g x0 y0 x1 y1 = Inl InvalidArgument \<longleftrightarrow>
            (x0 \<ge> width g \<or> x1 > width g \<or> y0 \<ge> height g \<or> y1 > height g
             \<or> x0 > x1 \<or> y0 > y1))
       \<and> (\<not> (x0 \<ge> width g \<or> x1 > width g \<or> y0 \<ge> height g \<or> y1 > height g
             \<or> x0 > x1 \<or> y0 > y1) \<longrightarrow>
            (\<exists>g'. crop g x0 y0 x1 y1 = Inr g' \<and> grid_inv g'
               \<and> width g' = x1 - x0 \<and> height g' = y1 - y0
               \<and> (\<forall>i j. i < x1 - x0 \<and> j < y1 - y0
                     \<longrightarrow> get g' i j = get g (x0 + i) (y0 + j))))"
proof (intro conjI impI iffI)
  assume "crop g x0 y0 x1 y1 = Inl InvalidArgument"
  then show "x0 \<ge> width g \<or> x1 > width g \<or> y0 \<ge> height g \<or> y1 > height g
             \<or> x0 > x1 \<or> y0 > y1"
    using crop_error[OF _ assms] by blast
next
  assume "x0 \<ge> width g \<or> x1 > width g \<or> y0 \<ge> height g \<or> y1 > height g
             \<or> x0 > x1 \<or> y0 > y1"
  then show "crop g x0 y0 x1 y1 = Inl InvalidArgument"
    by (auto simp: crop_def)
next
  assume "\<not> (x0 \<ge> width g \<or> x1 > width g \<or> y0 \<ge> height g \<or> y1 > height g
             \<or> x0 > x1 \<or> y0 > y1)"
  then show "\<exists>g'. crop g x0 y0 x1 y1 = Inr g' \<and> grid_inv g'
               \<and> width g' = x1 - x0 \<and> height g' = y1 - y0
               \<and> (\<forall>i j. i < x1 - x0 \<and> j < y1 - y0
                     \<longrightarrow> get g' i j = get g (x0 + i) (y0 + j))"
    using crop_ok[OF assms, of x0 x1 y0 y1] by (simp add: not_le not_less)
qed

theorem crop_window_witness:
  "grid_inv \<lparr>width = 2, height = 2, gridVector = [DEAD, ALIVE, ALIVE, ALIVE]\<rparr>
   \<and> \<not> ((0::u32) \<ge> 2 \<or> (1::u32) > 2 \<or> (0::u32) \<ge> 2 \<or> (2::u32) > 2
          \<or> (0::u32) > 1 \<or> (0::u32) > 2)
   \<and> (\<exists>g'. crop \<lparr>width = 2, height = 2, gridVector = [DEAD, ALIVE, ALIVE, ALIVE]\<rparr>
               0 0 1 2 = Inr g'
          \<and> grid_inv g' \<and> width g' = 1 \<and> height g' = 2
          \<and> (\<forall>i j. i < 1 \<and> j < 2 \<longrightarrow>
                get g' i j
                = get \<lparr>width = 2, height = 2, gridVector = [DEAD, ALIVE, ALIVE, ALIVE]\<rparr>
                    (0 + i) (0 + j)))
   \<and> crop \<lparr>width = 2, height = 2, gridVector = [DEAD, ALIVE, ALIVE, ALIVE]\<rparr> 2 0 2 0
       = Inl InvalidArgument"
proof -
  have inv: "grid_inv \<lparr>width = 2, height = 2, gridVector = [DEAD, ALIVE, ALIVE, ALIVE]\<rparr>"
    by (simp add: grid_inv_def)
  show ?thesis
    using inv crop_window[OF inv, of 0 0 1 2] crop_window[OF inv, of 2 0 2 0]
    by simp
qed

text \<open>
  Claim C7 as stated, refuted: on the 2x2 grid the window \<open>x0 = x1 = 2\<close>,
  \<open>y0 = y1 = 0\<close> meets none of the conditions \<open>x0 > width\<close>, \<open>x1 > width\<close>,
  \<open>y0 > height\<close>, \<open>y1 > height\<close>, \<open>x0 > x1\<close>, \<open>y0 > y1\<close>, and \<open>crop\<close>
  fails.
\<close>

theorem crop_empty_window_at_edge_counterexample:
  "crop (Grid_new 2 2) 2 0 2 0 = Inl InvalidArgument
   \<and> \<not> ((2::u32) > width (Grid_new 2 2) \<or> (2::u32) > width (Grid_new 2 2)
          \<or> (0::u32) > height (Grid_new 2 2) \<or> (0::u32) > height (Grid_new 2 2)
          \<or> (2::u32) > 2 \<or> (0::u32) > 0)"
  by (simp add: crop_def)



section \<open>Claims about the World, evaluated\<close>

text \<open>
  Claim C1, evaluated where the code departs from it. The world is 3 wide and 2 high,
  built by \<open>World::World(initial_state)\<close> from a grid whose only ALIVE cell is
  (2,0); the constructor copies the cells into both buffers. \<open>step(false)\<close> runs
  \<open>x\<close> over \<open>0 \<le> x < get_height() = 2\<close>, so column 2 of the next buffer is never
  written: after the swap the isolated cell (2,0) is still ALIVE.
\<close>

theorem step_skips_columns_from_height_on:
  "World_from_grid
     \<lparr>width = 3, height = 2, gridVector = [DEAD, DEAD, ALIVE, DEAD, DEAD, DEAD]\<rparr>
   = Inr \<lparr>currGrid =
            \<lparr>width = 3, height = 2, gridVector = [DEAD, DEAD, ALIVE, DEAD, DEAD, DEAD]\<rparr>,
          nextGrid =
            \<lparr>width = 3, height = 2, gridVector = [DEAD, DEAD, ALIVE, DEAD, DEAD, DEAD]\<rparr>\<rparr>
   \<and> step \<lparr>currGrid =
            \<lparr>width = 3, height = 2, gridVector = [DEAD, DEAD, ALIVE, DEAD, DEAD, DEAD]\<rparr>,
          nextGrid =
            \<lparr>width = 3, height = 2, gridVector = [DEAD, DEAD, ALIVE, DEAD, DEAD, DEAD]\<rparr>\<rparr>
        False
   = Inr \<lparr>currGrid =
            \<lparr>width = 3, height = 2, gridVector = [DEAD, DEAD, ALIVE, DEAD, DEAD, DEAD]\<rparr>,
          nextGrid =
            \<lparr>width = 3, height = 2, gridVector = [DEAD, DEAD, ALIVE, DEAD, DEAD, DEAD]\<rparr>\<rparr>"
  by code_simp

text \<open>
  Claim C2, evaluated where the code departs from it. On the 1x1 world
  \<open>count_neighbours(0, 0, false)\<close> moves \<open>x_minus\<close> from -1 to 0 and, because the
  test of \<open>x_plus\<close> is in the \<open>else\<close> branch, leaves \<open>x_plus = 1 = width\<close>; the
  loop then reads the cell (1,0), which is out of bounds.
\<close>

theorem count_neighbours_bounded_1x1_fails:
  "count_neighbours (World_new 1 1) 0 0 False = Inl OutOfBounds"
  by code_simp

text \<open>
  Claim C3, evaluated where the code departs from it. On the 1x1 world
  \<open>count_neighbours(0, 0, true)\<close> wraps \<open>x_minus\<close> to \<open>width - 1 = 0\<close> and leaves
  \<open>x_plus = 1 = width\<close> for the same reason; the read of (1,0) is out of bounds.
\<close>

theorem count_neighbours_toroidal_1x1_fails:
  "count_neighbours (World_new 1 1) 0 0 True = Inl OutOfBounds"
  by code_simp

section \<open>Claims about the binary codec, evaluated\<close>

text \<open>
  Claim C4, evaluated where the code departs from it. The grid is 2 wide and 1 high
  with cell (1,0) ALIVE. \<open>save_binary\<close> writes the width first and the height
  second; \<open>load_binary\<close> reads the first integer into \<open>height\<close> and the second into
  \<open>width\<close>, so the decoded grid is 1 wide and 2 high.
\<close>

theorem save_then_load_swaps_dimensions:
  "save_binary \<lparr>width = 2, height = 1, gridVector = [DEAD, ALIVE]\<rparr>
     = Inr [2, 0, 0, 0, 1, 0, 0, 0, 2, 0, 0, 0]
   \<and> load_binary height0 width0 bytesHolder0 [2, 0, 0, 0, 1, 0, 0, 0, 2, 0, 0, 0]
     = Inr \<lparr>width = 1, height = 2, gridVector = [DEAD, ALIVE]\<rparr>"
  by code_simp

text \<open>
  A file that lacks its last chunk only: the header declares 8 and 8, so two chunks
  and 16 bytes are due, and 12 bytes are there. End of file is tested before each
  read and not after the last one, so the grid is returned.
\<close>

lemma load_binary_short_last_chunk:
  "load_binary height0 width0 bytesHolder0 [8, 0, 0, 0, 8, 0, 0, 0, 0, 0, 0, 0]
   = Inr (Grid_new 8 8)"
  by code_simp

text \<open>
  Claim C5, as the code has it. \<open>load_binary\<close> has no check of the header and
  never fails with a format error. When the file holds the two integers of the
  header, their product is below \<open>2 ^ 31\<close>, and the file is shorter than
  \<open>8 + 4 * (c - 1)\<close> bytes, where \<open>c = ceil (product / 32)\<close> is the number of chunks
  (a chunk before the last one is missing or incomplete), \<open>load_binary\<close> fails with
  the end-of-file exception and returns no grid.
\<close>

theorem load_binary_failures:
  "load_binary height0 width0 bytesHolder0 bs \<noteq> Inl FormatError
   \<and> (8 \<le> length bs
        \<and> unat (bytes_u32 (take 4 (drop 4 bs))) * unat (bytes_u32 (take 4 bs)) < 2 ^ 31
        \<and> length bs < 8 + 4 * ((unat (bytes_u32 (take 4 (drop 4 bs)))
                                  * unat (bytes_u32 (take 4 bs)) + 31) div 32 - 1)
      \<longrightarrow> load_binary height0 width0 bytesHolder0 bs = Inl TruncatedInput)"
proof (intro conjI impI)
  show "load_binary height0 width0 bytesHolder0 bs \<noteq> Inl FormatError"
    using load_binary_error[of height0 width0 bytesHolder0 bs FormatError] by auto
next
  assume a: "8 \<le> length bs
        \<and> unat (bytes_u32 (take 4 (drop 4 bs))) * unat (bytes_u32 (take 4 bs)) < 2 ^ 31
        \<and> length bs < 8 + 4 * ((unat (bytes_u32 (take 4 (drop 4 bs)))
                                  * unat (bytes_u32 (take 4 bs)) + 31) div 32 - 1)"
  show "load_binary height0 width0 bytesHolder0 bs = Inl TruncatedInput"
    by (rule load_binary_truncated) (use a in simp_all)
qed

theorem load_binary_failures_witness:
  "(8 \<le> length [8, 0, 0, 0, 8, 0, 0, 0, 1, 0, 0 :: byte]
    \<and> unat (bytes_u32 (take 4 (drop 4 [8, 0, 0, 0, 8, 0, 0, 0, 1, 0, 0])))
        * unat (bytes_u32 (take 4 [8, 0, 0, 0, 8, 0, 0, 0, 1, 0, 0])) < 2 ^ 31
    \<and> length [8, 0, 0, 0, 8, 0, 0, 0, 1, 0, 0 :: byte]
        < 8 + 4 * ((unat (bytes_u32 (take 4 (drop 4 [8, 0, 0, 0, 8, 0, 0, 0, 1, 0, 0])))
                     * unat (bytes_u32 (take 4 [8, 0, 0, 0, 8, 0, 0, 0, 1, 0, 0])) + 31)
                   div 32 - 1))
   \<and> load_binary 0 0 0 [8, 0, 0, 0, 8, 0, 0, 0, 1, 0, 0] = Inl TruncatedInput
   \<and> load_binary 0 0 0 [8, 0, 0, 0, 8, 0, 0, 0, 1, 0, 0] \<noteq> Inl FormatError"
proof -
  have h: "8 \<le> length [8, 0, 0, 0, 8, 0, 0, 0, 1, 0, 0 :: byte]
    \<and> unat (bytes_u32 (take 4 (drop 4 [8, 0, 0, 0, 8, 0, 0, 0, 1, 0, 0])))
        * unat (bytes_u32 (take 4 [8, 0, 0, 0, 8, 0, 0, 0, 1, 0, 0])) < 2 ^ 31
    \<and> length [8, 0, 0, 0, 8, 0, 0, 0, 1, 0, 0 :: byte]
        < 8 + 4 * ((unat (bytes_u32 (take 4 (drop 4 [8, 0, 0, 0, 8, 0, 0, 0, 1, 0, 0])))
                     * unat (bytes_u32 (take 4 [8, 0, 0, 0, 8, 0, 0, 0, 1, 0, 0])) + 31)
                   div 32 - 1)"
    by (simp add: bytes_u32_def)
  show ?thesis
    using h load_binary_failures[of 0 0 0 "[8, 0, 0, 0, 8, 0, 0, 0, 1, 0, 0]"]
    by blast
qed

text \<open>
  Claim C5 as stated, refuted: both integers of the header are -1, one chunk follows,
  and \<open>load_binary\<close> returns a grid whose width and height are \<open>2 ^ 32 - 1\<close>, the
  vector holding \<open>(2 ^ 32 - 1) * (2 ^ 32 - 1) mod 2 ^ 32 = 1\<close> cell.
\<close>

theorem load_binary_negative_header_counterexample:
  "sint (bytes_u32 (take 4 [255, 255, 255, 255, 255, 255, 255, 255, 0, 0, 0, 0])) < 0
   \<and> sint (bytes_u32 (take 4 (drop 4 [255, 255, 255, 255, 255, 255, 255, 255, 0, 0, 0, 0])))
       < 0
   \<and> load_binary 0 0 0 [255, 255, 255, 255, 255, 255, 255, 255, 0, 0, 0, 0]
       = Inr \<lparr>width = - 1, height = - 1, gridVector = [DEAD]\<rparr>"
  by code_simp

end
